theory Spec2Isabelle
  imports Main "HOL-Library.Sublist" "HOL-Library.AList"
begin

section \<open>Strings\<close>

text \<open>
  Python strings are modelled as HOL strings (lists of 8-bit characters), so the model
  speaks about ASCII text. \<open>str.lower()\<close> maps the letters A to Z to a to z and leaves
  every other character alone, which is what Python does on ASCII text.
\<close>

definition lower_char :: "char \<Rightarrow> char" where
  "lower_char c =
     (case map_of (zip ''ABCDEFGHIJKLMNOPQRSTUVWXYZ'' ''abcdefghijklmnopqrstuvwxyz'') c of
        None \<Rightarrow> c
      | Some l \<Rightarrow> l)"

definition lower :: "string \<Rightarrow> string" where
  "lower s = map lower_char s"

text \<open>\<open>k in s\<close> on Python strings: \<open>k\<close> occurs in \<open>s\<close> as a contiguous block.\<close>

abbreviation py_in :: "string \<Rightarrow> string \<Rightarrow> bool" where
  "py_in k s \<equiv> sublist k s"

text \<open>\<open>s.lstrip(".")\<close>: drop every leading dot.\<close>

definition lstrip_dot :: "string \<Rightarrow> string" where
  "lstrip_dot s = dropWhile (\<lambda>c. c = CHR ''.'') s"

section \<open>Category configuration\<close>

text \<open>
  \<open>CATEGORY_MAP\<close> is a dict literal; Python dicts iterate in insertion order, so the
  table is an association list in declaration order.
\<close>

definition CATEGORY_MAP :: "(string \<times> string list) list" where
  "CATEGORY_MAP =
    [(''Images'', [''.jpg'', ''.jpeg'', ''.png'', ''.gif'', ''.bmp'', ''.tiff'', ''.webp'', ''.svg'', ''.heic'']),
     (''Videos'', [''.mp4'', ''.mkv'', ''.avi'', ''.mov'', ''.flv'', ''.wmv'', ''.webm'']),
     (''Audio'', [''.mp3'', ''.wav'', ''.aac'', ''.flac'', ''.m4a'', ''.ogg'']),
     (''Documents'', [''.doc'', ''.docx'', ''.txt'', ''.rtf'', ''.odt'']),
     (''PDFs'', [''.pdf'']),
     (''Spreadsheets'', [''.xls'', ''.xlsx'', ''.csv'', ''.ods'']),
     (''Presentations'', [''.ppt'', ''.pptx'', ''.odp'']),
     (''Archives'', [''.zip'', ''.rar'', ''.7z'', ''.tar'', ''.gz'']),
     (''Executables'', [''.exe'', ''.msi'', ''.bat'', ''.sh'', ''.apk'']),
     (''Code'', [''.py'', ''.java'', ''.cpp'', ''.c'', ''.js'', ''.php'', ''.html'', ''.css'', ''.ts'', ''.ipynb''])]"

text \<open>
  The loop of \<open>get_category\<close> over \<open>CATEGORY_MAP.items()\<close>, with the already
  lower-cased extension: return at the first category whose list holds it.
\<close>

fun get_category_loop :: "string \<Rightarrow> (string \<times> string list) list \<Rightarrow> string" where
  "get_category_loop ext [] = ''Others''"
| "get_category_loop ext ((cat, ext_list) # rest) =
     (if ext \<in> set ext_list then cat else get_category_loop ext rest)"

definition get_category :: "string \<Rightarrow> string" where
  "get_category ext = get_category_loop (lower ext) CATEGORY_MAP"

text \<open>
  \<open>guess_ai_category\<close> takes the entry's file name (\<open>entry.name\<close>) and the base
  category. \<open>any(k in name for k in ks)\<close> is \<open>list_ex\<close>.
\<close>

definition guess_ai_category :: "string \<Rightarrow> string \<Rightarrow> string" where
  "guess_ai_category entry_name base_category =
     (if base_category \<noteq> ''Others'' then ''''
      else let nm = lower entry_name in
        if list_ex (\<lambda>k. py_in k nm) [''img'', ''image'', ''photo'', ''camera'', ''screenshot'', ''snap'']
          then ''Images''
        else if list_ex (\<lambda>k. py_in k nm) [''video'', ''movie'', ''clip'', ''record'']
          then ''Videos''
        else if list_ex (\<lambda>k. py_in k nm) [''doc'', ''report'', ''assignment'', ''notes'', ''letter'']
          then ''Documents''
        else if list_ex (\<lambda>k. py_in k nm) [''music'', ''song'', ''audio'', ''track'']
          then ''Audio''
        else '''')"

section \<open>File records and search\<close>

text \<open>
  The dict built by \<open>get_file_info\<close>. \<open>modified_time\<close> holds the time stamp itself:
  its rendering by \<open>strftime\<close> in local time is not modelled.
\<close>

record file_info =
  name :: string
  relative_path :: string
  full_path :: string
  extension :: string
  category :: string
  ai_hint :: string
  size_bytes :: nat
  modified_time :: int

text \<open>The body of the loop of \<open>search_files\<close>: does this record match?\<close>

definition search_match :: "string \<Rightarrow> string \<Rightarrow> file_info \<Rightarrow> bool" where
  "search_match search_type query_lower info =
     (if search_type = ''name'' then py_in query_lower (lower (name info))
      else if search_type = ''extension'' then
        lstrip_dot query_lower = lstrip_dot (lower (extension info))
      else if search_type = ''category'' then
        query_lower = lower (category info) \<or> query_lower = lower (ai_hint info)
      else False)"

fun search_loop :: "string \<Rightarrow> string \<Rightarrow> file_info list \<Rightarrow> file_info list \<Rightarrow> file_info list" where
  "search_loop search_type query_lower [] results = results"
| "search_loop search_type query_lower (info # rest) results =
     search_loop search_type query_lower rest
       (if search_match search_type query_lower info then results @ [info] else results)"

definition search_files :: "file_info list \<Rightarrow> string \<Rightarrow> string \<Rightarrow> file_info list" where
  "search_files files_info search_type query =
     search_loop search_type (lower query) files_info []"

section \<open>Paths\<close>

text \<open>
  A \<open>pathlib\<close> path on a POSIX system, as \<open>pathlib\<close> keeps it: whether it is anchored
  at the root, and its components. Two paths are equal when both agree, which is the
  \<open>==\<close> of \<open>pathlib\<close>.
\<close>

datatype path = PurePath (is_abs: bool) (parts: "string list")

text \<open>
  Parsing a string into components: split at every slash, and drop empty components and
  single dots. Components \<open>..\<close> are kept, as \<open>pathlib\<close> keeps them.
\<close>

definition emit :: "string \<Rightarrow> string list" where
  "emit cur = (if cur = [] \<or> cur = ''.'' then [] else [cur])"

fun parse_parts :: "string \<Rightarrow> string \<Rightarrow> string list" where
  "parse_parts cur [] = emit cur"
| "parse_parts cur (c # cs) =
     (if c = CHR ''/'' then emit cur @ parse_parts [] cs else parse_parts (cur @ [c]) cs)"

text \<open>\<open>Path(s)\<close>. (A string that starts with exactly two slashes is read as one that
  starts with one.)\<close>

definition Path :: "string \<Rightarrow> path" where
  "Path s = PurePath (s \<noteq> [] \<and> hd s = CHR ''/'') (parse_parts [] s)"

text \<open>\<open>str(p)\<close>.\<close>

fun join_slash :: "string list \<Rightarrow> string" where
  "join_slash [] = []"
| "join_slash [x] = x"
| "join_slash (x # y # ys) = x @ ''/'' @ join_slash (y # ys)"

definition str_of_path :: "path \<Rightarrow> string" where
  "str_of_path p =
     (if is_abs p then ''/'' @ join_slash (parts p)
      else if parts p = [] then ''.'' else join_slash (parts p))"

text \<open>\<open>p / s\<close> for a string \<open>s\<close>: an absolute \<open>s\<close> replaces \<open>p\<close>.\<close>

definition joinpath :: "path \<Rightarrow> string \<Rightarrow> path" where
  "joinpath p s =
     (if is_abs (Path s) then Path s else PurePath (is_abs p) (parts p @ parts (Path s)))"

text \<open>\<open>p.name\<close> and \<open>p.parent\<close>.\<close>

definition path_name :: "path \<Rightarrow> string" where
  "path_name p = (if parts p = [] then [] else last (parts p))"

definition path_parent :: "path \<Rightarrow> path" where
  "path_parent p = PurePath (is_abs p) (butlast (parts p))"

text \<open>
  \<open>p.suffix\<close> and \<open>p.stem\<close>, on the name, as \<open>pathlib\<close> has them up to Python 3.13: with \<open>i\<close> the index of the last dot of the
  name, the suffix is \<open>name[i:]\<close> when \<open>0 < i < len(name) - 1\<close> and empty otherwise, and
  the stem is the rest.
\<close>

definition rfind_dot :: "string \<Rightarrow> nat option" where
  "rfind_dot nm =
     (if CHR ''.'' \<in> set nm
      then Some (length nm - 1 - length (takeWhile (\<lambda>c. c \<noteq> CHR ''.'') (rev nm)))
      else None)"

definition py_suffix :: "string \<Rightarrow> string" where
  "py_suffix nm =
     (case rfind_dot nm of
        None \<Rightarrow> []
      | Some i \<Rightarrow> if 0 < i \<and> i < length nm - 1 then drop i nm else [])"

definition py_stem :: "string \<Rightarrow> string" where
  "py_stem nm =
     (case rfind_dot nm of
        None \<Rightarrow> nm
      | Some i \<Rightarrow> if 0 < i \<and> i < length nm - 1 then take i nm else nm)"

text \<open>
  \<open>p.relative_to(other)\<close>: the components of \<open>p\<close> after those of \<open>other\<close>; a
  \<open>ValueError\<close> when \<open>p\<close> does not start with \<open>other\<close>.
\<close>

datatype os_error =
    FileNotFoundError | FileExistsError | NotADirectoryError | IsADirectoryError
  | PermissionError | ShutilError | ValueError

definition relative_to :: "path \<Rightarrow> path \<Rightarrow> os_error + path" where
  "relative_to p other =
     (if is_abs p = is_abs other \<and> prefix (parts other) (parts p)
      then Inr (PurePath False (drop (length (parts other)) (parts p)))
      else Inl ValueError)"

text \<open>
  \<open>p.resolve()\<close> in a file system without symbolic links: a relative path is put under
  the working directory. Components \<open>..\<close> are not collapsed: the model is about paths
  that have none.
\<close>

definition resolve :: "string list \<Rightarrow> path \<Rightarrow> path" where
  "resolve wd p = PurePath True ((if is_abs p then [] else wd) @ parts p)"

text \<open>Decimal rendering of a count, as an f-string renders an \<open>int\<close>.\<close>

fun str_nat :: "nat \<Rightarrow> string" where
  "str_nat n =
     (if n < 10 then [''0123456789'' ! n]
      else str_nat (n div 10) @ [''0123456789'' ! (n mod 10)])"

declare str_nat.simps [simp del]

section \<open>The file system\<close>

text \<open>
  A regular file holds its bytes and its modification time; a directory holds nothing of
  its own. The file system is a list of the nodes by absolute path, in the order in which
  directories list their entries, together with the working directory of the process and
  the time stamp given to a file that is written. The root directory always exists.
\<close>

datatype node = File string int | Dir

record os_state =
  cwd :: "string list"
  now :: int
  nodes :: "(string list \<times> node) list"

definition key :: "os_state \<Rightarrow> path \<Rightarrow> string list" where
  "key st p = parts (resolve (cwd st) p)"

definition lookup_key :: "os_state \<Rightarrow> string list \<Rightarrow> node option" where
  "lookup_key st k = (if k = [] then Some Dir else map_of (nodes st) k)"

definition lookup_node :: "os_state \<Rightarrow> path \<Rightarrow> node option" where
  "lookup_node st p = lookup_key st (key st p)"

text \<open>\<open>p.exists()\<close>, \<open>p.is_dir()\<close> and \<open>p.is_file()\<close> on a file system at rest.\<close>

definition path_exists :: "os_state \<Rightarrow> path \<Rightarrow> bool" where
  "path_exists st p = (lookup_node st p \<noteq> None)"

definition is_dir :: "os_state \<Rightarrow> path \<Rightarrow> bool" where
  "is_dir st p = (lookup_node st p = Some Dir)"

definition is_file :: "os_state \<Rightarrow> path \<Rightarrow> bool" where
  "is_file st p = (case lookup_node st p of Some (File d m) \<Rightarrow> True | _ \<Rightarrow> False)"

text \<open>
  \<open>p.mkdir(exist_ok=True)\<close>: nothing to do when the directory is there; an error when a
  file is in its place or when the parent is missing or is a file.
\<close>

definition mkdir_exist_ok :: "path \<Rightarrow> os_state \<Rightarrow> os_error option \<times> os_state" where
  "mkdir_exist_ok p st =
     (let k = key st p in
      case lookup_key st k of
        Some Dir \<Rightarrow> (None, st)
      | Some (File d m) \<Rightarrow> (Some FileExistsError, st)
      | None \<Rightarrow>
          (case lookup_key st (butlast k) of
             Some Dir \<Rightarrow> (None, st\<lparr>nodes := nodes st @ [(k, Dir)]\<rparr>)
           | Some (File d m) \<Rightarrow> (Some NotADirectoryError, st)
           | None \<Rightarrow> (Some FileNotFoundError, st)))"

text \<open>
  \<open>shutil.move(src, dst)\<close>. A destination that is a directory other than the source
  stands for the entry of the source's name inside it, which must be free. The source is
  then renamed: a missing source is an error; a file replaces a file that is at the
  destination (\<open>os.rename\<close> does not ask); a directory moves with everything below it,
  to a free destination outside itself. The parent of the destination must be a
  directory (the copy that \<open>shutil\<close> falls back on would create it for a directory
  source; \<open>organize_files\<close> creates it before every move).
\<close>

definition rename_below :: "string list \<Rightarrow> string list \<Rightarrow> string list \<times> node \<Rightarrow> string list \<times> node" where
  "rename_below s d e = (if prefix s (fst e) then (d @ drop (length s) (fst e), snd e) else e)"

definition shutil_move :: "path \<Rightarrow> path \<Rightarrow> os_state \<Rightarrow> os_error option \<times> os_state" where
  "shutil_move src dst st =
     (let s = key st src;
          d0 = key st dst;
          into = (lookup_key st d0 = Some Dir \<and> s \<noteq> d0);
          d = (if into then d0 @ [path_name src] else d0)
      in
      if into \<and> lookup_key st d \<noteq> None then (Some ShutilError, st)
      else
        (case lookup_key st s of
           None \<Rightarrow> (Some FileNotFoundError, st)
         | Some (File dat m) \<Rightarrow>
             if lookup_key st d = Some Dir then (Some IsADirectoryError, st)
             else if lookup_key st (butlast d) \<noteq> Some Dir then (Some FileNotFoundError, st)
             else (None, st\<lparr>nodes := AList.update d (File dat m) (AList.delete s (nodes st))\<rparr>)
         | Some Dir \<Rightarrow>
             if s = d then (None, st)
             else if lookup_key st d \<noteq> None then (Some FileExistsError, st)
             else if prefix s d then (Some ShutilError, st)
             else if lookup_key st (butlast d) \<noteq> Some Dir then (Some FileNotFoundError, st)
             else (None, st\<lparr>nodes := map (rename_below s d) (nodes st)\<rparr>)))"

text \<open>
  \<open>open(p, "w")\<close> followed by writing \<open>text\<close>: the file is created, or replaced, with
  the time stamp of the moment.
\<close>

definition write_text :: "path \<Rightarrow> string \<Rightarrow> os_state \<Rightarrow> os_error option \<times> os_state" where
  "write_text p txt st =
     (let k = key st p in
      if lookup_key st k = Some Dir then (Some IsADirectoryError, st)
      else if lookup_key st (butlast k) \<noteq> Some Dir then (Some FileNotFoundError, st)
      else (None, st\<lparr>nodes := AList.update k (File txt (now st)) (nodes st)\<rparr>))"

text \<open>The entries of the directory at a key, by name, in listing order.\<close>

definition listdir :: "os_state \<Rightarrow> string list \<Rightarrow> (string \<times> node) list" where
  "listdir st k = map (\<lambda>e. (last (fst e), snd e)) (filter (\<lambda>e. fst e \<noteq> [] \<and> butlast (fst e) = k) (nodes st))"

definition is_Dir :: "node \<Rightarrow> bool" where
  "is_Dir n = (case n of Dir \<Rightarrow> True | File d m \<Rightarrow> False)"

text \<open>The keys of the file system that lie strictly below a key.\<close>

definition below :: "os_state \<Rightarrow> string list \<Rightarrow> string list set" where
  "below st k = {k' \<in> fst ` set (nodes st). strict_prefix k k'}"

text \<open>
  The renaming loop of \<open>organize_files\<close>: \<open>candidate\<close> is \<open>new_dest\<close> for a counter,
  \<open>category_folder / f"{base} ({counter}){ext}"\<close>, and \<open>first_free\<close> is the
  \<open>while True\<close> loop, started by the caller at counter 1. The loop ends because the file
  system is finite and different counters give different paths.
\<close>

definition candidate :: "path \<Rightarrow> string \<Rightarrow> string \<Rightarrow> nat \<Rightarrow> path" where
  "candidate folder base ext counter = joinpath folder (base @ '' ('' @ str_nat counter @ '')'' @ ext)"

definition counter_tag :: "nat \<Rightarrow> string" where
  "counter_tag c = '' ('' @ str_nat c @ '')''"

lemma digit_inj: "a < 10 \<Longrightarrow> b < 10 \<Longrightarrow> ''0123456789'' ! a = ''0123456789'' ! b \<Longrightarrow> a = (b::nat)"
proof -
  assume a: "a < 10" and b: "b < 10" and e: "''0123456789'' ! a = ''0123456789'' ! b"
  have d: "distinct ''0123456789''" by simp
  have "length ''0123456789'' = 10" by simp
  with a b e d show ?thesis by (metis nth_eq_iff_index_eq)
qed

lemma str_nat_nonempty: "str_nat n \<noteq> []"
  by (subst str_nat.simps) simp

lemma str_nat_inj: "str_nat a = str_nat b \<Longrightarrow> a = b"
proof (induction a arbitrary: b rule: str_nat.induct)
  case (1 n)
  show ?case
  proof (cases "n < 10")
    case True
    note n = this
    show ?thesis
    proof (cases "b < 10")
      case True
      with n "1.prems" show ?thesis
        by (subst (asm) str_nat.simps, subst (asm) (2) str_nat.simps) (auto dest: digit_inj)
    next
      case False
      have "length (str_nat b) \<ge> 2"
        using False str_nat_nonempty [of "b div 10"]
        by (subst str_nat.simps) (cases "str_nat (b div 10)"; simp)
      moreover have "length (str_nat n) = 1" using n by (subst str_nat.simps) simp
      ultimately show ?thesis using "1.prems" by simp
    qed
  next
    case False
    note n = this
    show ?thesis
    proof (cases "b < 10")
      case True
      have "length (str_nat n) \<ge> 2"
        using n str_nat_nonempty [of "n div 10"]
        by (subst str_nat.simps) (cases "str_nat (n div 10)"; simp)
      moreover have "length (str_nat b) = 1" using True by (subst str_nat.simps) simp
      ultimately show ?thesis using "1.prems" by simp
    next
      case False
      have e: "str_nat (n div 10) @ [''0123456789'' ! (n mod 10)] = str_nat (b div 10) @ [''0123456789'' ! (b mod 10)]"
        using "1.prems" n False by (subst (asm) str_nat.simps, subst (asm) (2) str_nat.simps) simp
      then have "str_nat (n div 10) = str_nat (b div 10)" and d: "''0123456789'' ! (n mod 10) = ''0123456789'' ! (b mod 10)"
        by simp_all
      then have "n div 10 = b div 10" using "1.IH" n by blast
      moreover have "n mod 10 = b mod 10" using d by (intro digit_inj) simp_all
      ultimately show ?thesis by (metis div_mult_mod_eq)
    qed
  qed
qed


lemma parse_parts_no_slash:
  "CHR ''/'' \<notin> set m \<Longrightarrow> parse_parts cur (m @ b) = parse_parts (cur @ m) b"
  by (induction m arbitrary: cur) auto

lemma parse_parts_front:
  "\<exists>X L. \<forall>r. parse_parts cur (a @ r) = X @ parse_parts L r"
proof (induction a arbitrary: cur)
  case Nil
  show ?case by (rule exI [of _ "[]"], rule exI [of _ cur]) simp
next
  case (Cons c cs)
  show ?case
  proof (cases "c = CHR ''/''")
    case True
    from Cons [of "[]"] obtain X L where h: "\<forall>r. parse_parts [] (cs @ r) = X @ parse_parts L r"
      by blast
    show ?thesis
      by (rule exI [of _ "emit cur @ X"], rule exI [of _ L]) (use True h in \<open>simp add: emit_def\<close>)
  next
    case False
    from Cons [of "cur @ [c]"] obtain X L
      where h: "\<forall>r. parse_parts (cur @ [c]) (cs @ r) = X @ parse_parts L r"
      by blast
    show ?thesis
      by (rule exI [of _ X], rule exI [of _ L]) (use False h in simp)
  qed
qed

lemma parse_parts_back:
  "\<exists>T R. \<forall>cur. parse_parts cur b = emit (cur @ T) @ R"
proof (induction b)
  case Nil
  show ?case by (rule exI [of _ "[]"], rule exI [of _ "[]"]) (simp add: emit_def)
next
  case (Cons c cs)
  show ?case
  proof (cases "c = CHR ''/''")
    case True
    show ?thesis
      by (rule exI [of _ "[]"], rule exI [of _ "parse_parts [] cs"]) (use True in \<open>simp add: emit_def\<close>)
  next
    case False
    from Cons obtain T R where h: "\<forall>cur. parse_parts cur cs = emit (cur @ T) @ R"
      by blast
    show ?thesis
      by (rule exI [of _ "c # T"], rule exI [of _ R]) (use False h in simp)
  qed
qed

lemma counter_tag_no_slash: "CHR ''/'' \<notin> set (counter_tag c)"
proof -
  have "CHR ''/'' \<notin> set (str_nat c)"
  proof (induction c rule: str_nat.induct)
    case (1 n)
    have d: "\<And>k. k < 10 \<Longrightarrow> CHR ''/'' \<noteq> ''0123456789'' ! k"
    proof -
      fix k :: nat assume "k < 10"
      then have "''0123456789'' ! k \<in> set ''0123456789''" by (intro nth_mem) simp
      then show "CHR ''/'' \<noteq> ''0123456789'' ! k" by auto
    qed
    show ?case
    proof (cases "n < 10")
      case True
      then show ?thesis by (subst str_nat.simps) (simp add: d)
    next
      case False
      then show ?thesis using "1.IH" by (subst str_nat.simps) (simp add: d)
    qed
  qed
  then show ?thesis by (simp add: counter_tag_def)
qed

lemma counter_tag_inj: "counter_tag a = counter_tag b \<Longrightarrow> a = b"
  by (simp add: counter_tag_def str_nat_inj)

lemma parse_parts_tagged:
  "\<exists>X Y Z R. \<forall>c. parse_parts [] (a @ counter_tag c @ b) = X @ [Y @ counter_tag c @ Z] @ R"
proof -
  obtain X L where f: "\<forall>r. parse_parts [] (a @ r) = X @ parse_parts L r"
    using parse_parts_front by blast
  obtain T R where g: "\<forall>cur. parse_parts cur b = emit (cur @ T) @ R"
    using parse_parts_back by blast
  have "parse_parts [] (a @ counter_tag c @ b) = X @ [L @ counter_tag c @ T] @ R" for c
  proof -
    have "parse_parts [] (a @ counter_tag c @ b) = X @ parse_parts L (counter_tag c @ b)"
      using f by simp
    also have "parse_parts L (counter_tag c @ b) = parse_parts (L @ counter_tag c) b"
      by (rule parse_parts_no_slash) (rule counter_tag_no_slash)
    also have "\<dots> = emit ((L @ counter_tag c) @ T) @ R" using g by blast
    also have "emit ((L @ counter_tag c) @ T) = [L @ counter_tag c @ T]"
      by (auto simp: emit_def counter_tag_def append_eq_Cons_conv)
    finally show ?thesis by simp
  qed
  then show ?thesis by blast
qed

lemma candidate_tag: "candidate folder base ext c = joinpath folder (base @ counter_tag c @ ext)"
  by (simp add: candidate_def counter_tag_def)

lemma candidate_key_inj: "inj (\<lambda>c. key st (candidate folder base ext c))"
proof -
  obtain X Y Z R where p: "\<forall>c. parse_parts [] (base @ counter_tag c @ ext) = X @ [Y @ counter_tag c @ Z] @ R"
    using parse_parts_tagged by blast
  have hd_tag: "hd (counter_tag c @ ext) \<noteq> CHR ''/''" for c
    by (simp add: counter_tag_def)
  have abs: "is_abs (Path (base @ counter_tag c @ ext)) = (base \<noteq> [] \<and> hd base = CHR ''/'')" for c
    using hd_tag [of c] by (cases base) (simp_all add: Path_def)
  have pts: "parts (Path (base @ counter_tag c @ ext)) = X @ [Y @ counter_tag c @ Z] @ R" for c
    using p by (simp add: Path_def)
  define W where "W = (if base \<noteq> [] \<and> hd base = CHR ''/'' then []
     else (if is_abs folder then [] else cwd st) @ parts folder)"
  have w: "key st (candidate folder base ext c) = W @ X @ [Y @ counter_tag c @ Z] @ R" for c
  proof (cases "base \<noteq> [] \<and> hd base = CHR ''/''")
    case True
    then have ia: "is_abs (Path (base @ counter_tag c @ ext))"
      using abs [of c] by blast
    have "joinpath folder (base @ counter_tag c @ ext) = Path (base @ counter_tag c @ ext)"
      by (simp add: joinpath_def ia)
    with ia show ?thesis using True pts [of c]
      by (simp add: key_def candidate_tag resolve_def W_def)
  next
    case False
    then have na: "\<not> is_abs (Path (base @ counter_tag c @ ext))"
      using abs [of c] by blast
    have "joinpath folder (base @ counter_tag c @ ext) =
        PurePath (is_abs folder) (parts folder @ parts (Path (base @ counter_tag c @ ext)))"
      by (simp add: joinpath_def na)
    then show ?thesis using False pts [of c]
      by (auto simp: key_def candidate_tag resolve_def W_def)
  qed
  show ?thesis
  proof (rule injI)
    fix a b assume "key st (candidate folder base ext a) = key st (candidate folder base ext b)"
    then have "counter_tag a = counter_tag b" using w by simp
    then show "a = b" by (rule counter_tag_inj)
  qed
qed

lemma path_exists_key:
  "path_exists st p \<Longrightarrow> key st p \<in> insert [] (fst ` set (nodes st))"
proof -
  assume "path_exists st p"
  then have "key st p = [] \<or> map_of (nodes st) (key st p) \<noteq> None"
    by (auto simp: path_exists_def lookup_node_def lookup_key_def split: if_splits)
  then show ?thesis
    by (auto simp: map_of_eq_None_iff)
qed

lemma taken_finite: "finite {k. c \<le> k \<and> path_exists st (candidate folder base ext k)}"
proof -
  let ?h = "\<lambda>c. key st (candidate folder base ext c)"
  have "finite (?h -` (insert [] (fst ` set (nodes st))))"
    by (intro finite_vimageI candidate_key_inj) simp
  moreover have "{k. c \<le> k \<and> path_exists st (candidate folder base ext k)} \<subseteq> ?h -` (insert [] (fst ` set (nodes st)))"
    using path_exists_key by blast
  ultimately show ?thesis by (rule rev_finite_subset)
qed

function first_free :: "os_state \<Rightarrow> path \<Rightarrow> string \<Rightarrow> string \<Rightarrow> nat \<Rightarrow> path" where
  "first_free st folder base ext counter =
     (let new_dest = candidate folder base ext counter in
      if \<not> path_exists st new_dest then new_dest
      else first_free st folder base ext (counter + 1))"
  by pat_completeness auto
termination
proof (relation "measure (\<lambda>(st, folder, base, ext, c). card {k. c \<le> k \<and> path_exists st (candidate folder base ext k)})")
  show "wf (measure (\<lambda>(st, folder, base, ext, c). card {k. c \<le> k \<and> path_exists st (candidate folder base ext k)}))"
    by simp
next
  fix st :: os_state and folder base ext counter x
  assume x: "x = candidate folder base ext counter" and e: "\<not> \<not> path_exists st x"
  have "counter \<in> {k. counter \<le> k \<and> path_exists st (candidate folder base ext k)}"
    using x e by simp
  moreover have "counter \<notin> {k. counter + 1 \<le> k \<and> path_exists st (candidate folder base ext k)}"
    by simp
  moreover have "{k. counter + 1 \<le> k \<and> path_exists st (candidate folder base ext k)}
      \<subseteq> {k. counter \<le> k \<and> path_exists st (candidate folder base ext k)}"
    by auto
  ultimately have "{k. counter + 1 \<le> k \<and> path_exists st (candidate folder base ext k)}
      \<subset> {k. counter \<le> k \<and> path_exists st (candidate folder base ext k)}"
    by blast
  then have "card {k. counter + 1 \<le> k \<and> path_exists st (candidate folder base ext k)}
      < card {k. counter \<le> k \<and> path_exists st (candidate folder base ext k)}"
    by (intro psubset_card_mono taken_finite)
  then show "((st, folder, base, ext, counter + 1), (st, folder, base, ext, counter))
      \<in> measure (\<lambda>(st, folder, base, ext, c). card {k. c \<le> k \<and> path_exists st (candidate folder base ext k)})"
    by simp
qed

text \<open>
  \<open>os.walk(top)\<close>, top down, without following links: nothing for a \<open>top\<close> that is not
  a directory; otherwise the directory with the names of its entries that are not
  directories, then the walk of each of its subdirectories, in listing order. \<open>sub\<close> holds
  the components from \<open>top\<close> down to the directory being listed; the caller starts it
  empty. Only the directory path and the file names are kept: \<open>scan_folder\<close> ignores the
  list of subdirectory names.
\<close>

declare first_free.simps [simp del]

lemma below_finite: "finite (below st k)"
  by (simp add: below_def)

function os_walk :: "os_state \<Rightarrow> path \<Rightarrow> string list \<Rightarrow> (path \<times> string list) list" where
  "os_walk st tp sub =
     (let k = key st tp @ sub in
      if lookup_key st k \<noteq> Some Dir then []
      else
        (PurePath (is_abs tp) (parts tp @ sub), map fst (filter (\<lambda>e. \<not> is_Dir (snd e)) (listdir st k)))
        # concat (map (\<lambda>d. os_walk st tp (sub @ [d])) (map fst (filter (\<lambda>e. is_Dir (snd e)) (listdir st k)))))"
  by pat_completeness auto
termination
proof (relation "measure (\<lambda>(st, tp, sub). card (below st (key st tp @ sub)))")
  show "wf (measure (\<lambda>(st, tp, sub). card (below st (key st tp @ sub))))" by simp
next
  fix st :: os_state and tp sub k d
  assume k: "k = key st tp @ sub"
    and d: "d \<in> set (map fst (filter (\<lambda>e. is_Dir (snd e)) (listdir st k)))"
  from d have "k @ [d] \<in> fst ` set (nodes st)"
    by (force simp: listdir_def image_iff)
  then have "k @ [d] \<in> below st k" by (simp add: below_def strict_prefix_def)
  moreover have "k @ [d] \<notin> below st (k @ [d])" by (simp add: below_def strict_prefix_def)
  moreover have "below st (k @ [d]) \<subseteq> below st k"
    by (auto simp: below_def strict_prefix_def prefix_def)
  ultimately have "below st (k @ [d]) \<subset> below st k" by blast
  then have "card (below st (k @ [d])) < card (below st k)"
    by (intro psubset_card_mono below_finite)
  then show "((st, tp, sub @ [d]), (st, tp, sub)) \<in> measure (\<lambda>(st, tp, sub). card (below st (key st tp @ sub)))"
    using k by simp
qed

declare os_walk.simps [simp del]

text \<open>\<open>p.iterdir()\<close>: the entries of a directory, each as the directory's path with the
  entry's name as one more component.\<close>

definition iterdir :: "os_state \<Rightarrow> path \<Rightarrow> os_error + path list" where
  "iterdir st p =
     (case lookup_node st p of
        None \<Rightarrow> Inl FileNotFoundError
      | Some (File d m) \<Rightarrow> Inl NotADirectoryError
      | Some Dir \<Rightarrow> Inr (map (\<lambda>e. PurePath (is_abs p) (parts p @ [fst e])) (listdir st (key st p))))"

section \<open>What a scan sees of the operating system\<close>

text \<open>
  \<open>scan_folder\<close> and \<open>get_file_info\<close> ask the operating system four things: the
  enumeration (\<open>os.walk\<close> or \<open>iterdir\<close>), \<open>entry.is_file()\<close>, \<open>entry.stat()\<close> and
  \<open>entry.resolve()\<close>. Each can fail on its own, and the file system can change between
  two of them, so the scan is modelled over the answers it gets: \<open>os_view\<close> gives, for
  every path, the outcome of each call during the scan (every entry is asked each
  question once). \<open>is_file\<close> answers \<open>False\<close> for an entry that is gone; an error it does
  not swallow is an \<open>Inl\<close>.
\<close>

record stat_result =
  st_size :: nat
  st_mtime :: int

record os_view =
  v_walk :: "path \<Rightarrow> (path \<times> string list) list"
  v_iterdir :: "path \<Rightarrow> os_error + path list"
  v_is_file :: "path \<Rightarrow> os_error + bool"
  v_stat :: "path \<Rightarrow> os_error + stat_result"
  v_resolve :: "path \<Rightarrow> path"

text \<open>The view of a file system at rest, where nothing fails that the state does not
  explain. (A directory's own size and time stamp are never read by the program.)\<close>

definition stat :: "os_state \<Rightarrow> path \<Rightarrow> os_error + stat_result" where
  "stat st p =
     (case lookup_node st p of
        None \<Rightarrow> Inl FileNotFoundError
      | Some (File d m) \<Rightarrow> Inr \<lparr>st_size = length d, st_mtime = m\<rparr>
      | Some Dir \<Rightarrow> Inr \<lparr>st_size = 0, st_mtime = 0\<rparr>)"

definition view_of :: "os_state \<Rightarrow> os_view" where
  "view_of st =
     \<lparr>v_walk = (\<lambda>p. os_walk st p []),
      v_iterdir = iterdir st,
      v_is_file = (\<lambda>p. Inr (is_file st p)),
      v_stat = stat st,
      v_resolve = resolve (cwd st)\<rparr>"

section \<open>Scanning\<close>

text \<open>
  \<open>get_file_info\<close>: \<open>Inr None\<close> is the \<open>return None\<close> for the two report files; an
  exception of \<open>entry.stat()\<close> or of \<open>relative_to\<close> leaves the function (\<open>Inl\<close>), since
  nothing catches it.
\<close>

definition get_file_info :: "os_view \<Rightarrow> path \<Rightarrow> path \<Rightarrow> os_error + file_info option" where
  "get_file_info os entry root_folder =
     (if path_name entry = ''organized_index.csv'' \<or> path_name entry = ''organized_index.json''
      then Inr None
      else
        let ext = lower (py_suffix (path_name entry));
            cat = get_category ext;
            hint = guess_ai_category (path_name entry) cat
        in
        case v_stat os entry of
          Inl e \<Rightarrow> Inl e
        | Inr s \<Rightarrow>
            (case relative_to entry root_folder of
               Inl e \<Rightarrow> Inl e
             | Inr rel \<Rightarrow>
                 Inr (Some
                   \<lparr>name = path_name entry,
                    relative_path = str_of_path rel,
                    full_path = str_of_path (v_resolve os entry),
                    extension = (if ext \<noteq> [] then ext else ''(no extension)''),
                    category = cat,
                    ai_hint = hint,
                    size_bytes = st_size s,
                    modified_time = st_mtime s\<rparr>)))"

text \<open>
  The loop body shared by both branches of \<open>scan_folder\<close>, over the entries in the order
  the enumeration gives them; \<open>files_info\<close> is the list built so far.
\<close>

fun scan_entries :: "os_view \<Rightarrow> path \<Rightarrow> path list \<Rightarrow> file_info list \<Rightarrow> os_error + file_info list" where
  "scan_entries os folder_path [] files_info = Inr files_info"
| "scan_entries os folder_path (entry # rest) files_info =
     (case v_is_file os entry of
        Inl e \<Rightarrow> Inl e
      | Inr False \<Rightarrow> scan_entries os folder_path rest files_info
      | Inr True \<Rightarrow>
          (case get_file_info os entry folder_path of
             Inl e \<Rightarrow> Inl e
           | Inr None \<Rightarrow> scan_entries os folder_path rest files_info
           | Inr (Some info) \<Rightarrow> scan_entries os folder_path rest (files_info @ [info])))"

text \<open>The entries of a walk: \<open>Path(dirpath) / filename\<close> for every file name of every
  directory, in order.\<close>

definition walk_entries :: "(path \<times> string list) list \<Rightarrow> path list" where
  "walk_entries w = concat (map (\<lambda>(dirpath, filenames). map (joinpath dirpath) filenames) w)"

definition scan_folder :: "os_view \<Rightarrow> path \<Rightarrow> bool \<Rightarrow> os_error + file_info list" where
  "scan_folder os folder_path recursive =
     (if recursive then scan_entries os folder_path (walk_entries (v_walk os folder_path)) []
      else
        (case v_iterdir os folder_path of
           Inl e \<Rightarrow> Inl e
         | Inr entries \<Rightarrow> scan_entries os folder_path entries []))"

section \<open>Organizing\<close>

text \<open>
  The destination of one record: \<open>category_folder / src.name\<close> when nothing is there in
  the file system as it is now, and otherwise what the renaming loop finds, with the stem
  and the suffix of the name.
\<close>

definition organize_target :: "path \<Rightarrow> path \<Rightarrow> os_state \<Rightarrow> path" where
  "organize_target category_folder src st =
     (let dest = joinpath category_folder (path_name src) in
      if path_exists st dest
      then first_free st category_folder (py_stem (path_name dest)) (py_suffix (path_name dest)) 1
      else dest)"

text \<open>
  One round of the second loop of \<open>organize_files\<close>. \<open>None\<close> is a round that went through
  (or hit \<open>continue\<close>); \<open>Some e\<close> is an exception of \<open>mkdir\<close> or \<open>shutil.move\<close>, which
  nothing in \<open>organize_files\<close> catches. The paths go to \<open>shutil.move\<close> through \<open>str\<close>,
  which loses nothing of a path.
\<close>

definition organize_one :: "path \<Rightarrow> file_info \<Rightarrow> os_state \<Rightarrow> os_error option \<times> os_state" where
  "organize_one root_folder info st =
     (let src = Path (full_path info);
          category_folder = joinpath root_folder (category info)
      in
      case mkdir_exist_ok category_folder st of
        (Some e, st1) \<Rightarrow> (Some e, st1)
      | (None, st1) \<Rightarrow>
          if path_parent src = category_folder then (None, st1)
          else shutil_move src (organize_target category_folder src st1) st1)"

fun organize_loop :: "path \<Rightarrow> file_info list \<Rightarrow> os_state \<Rightarrow> os_error option \<times> os_state" where
  "organize_loop root_folder [] st = (None, st)"
| "organize_loop root_folder (info # rest) st =
     (case organize_one root_folder info st of
        (Some e, st1) \<Rightarrow> (Some e, st1)
      | (None, st1) \<Rightarrow> organize_loop root_folder rest st1)"

text \<open>The first loop: \<open>category_count\<close> is a dict, so a new category goes to the end and
  a known one keeps its place.\<close>

definition count_one :: "file_info \<Rightarrow> (string \<times> nat) list \<Rightarrow> (string \<times> nat) list" where
  "count_one info category_count =
     AList.update (category info)
       ((case map_of category_count (category info) of None \<Rightarrow> 0 | Some n \<Rightarrow> n) + 1)
       category_count"

definition newline :: string where
  "newline = [CHR 0x0A]"

fun join_lines :: "string list \<Rightarrow> string" where
  "join_lines [] = []"
| "join_lines [x] = x"
| "join_lines (x # y # ys) = x @ newline @ join_lines (y # ys)"

definition summary_lines :: "file_info list \<Rightarrow> string list" where
  "summary_lines files_info =
     ''Summary by category:'' #
     map (\<lambda>(cat, count). ''  '' @ cat @ '': '' @ str_nat count @ '' file(s)'')
       (fold count_one files_info [])"

text \<open>
  \<open>organize_files\<close> returns a string or raises; either way the file system is left as
  the moves made it.
\<close>

definition organize_files :: "path \<Rightarrow> file_info list \<Rightarrow> os_state \<Rightarrow> (os_error + string) \<times> os_state" where
  "organize_files root_folder files_info st =
     (if files_info = [] then (Inr ''No files found to organize.'', st)
      else
        (case organize_loop root_folder files_info st of
           (Some e, st1) \<Rightarrow> (Inl e, st1)
         | (None, st1) \<Rightarrow>
             (Inr (join_lines (summary_lines files_info
                     @ [newline @ ''Files have been organized into category folders.''])),
              st1)))"

section \<open>Exporting\<close>

text \<open>
  \<open>export_reports\<close>. What \<open>csv.DictWriter\<close> and \<open>json.dump\<close> write is library
  behaviour, taken as the two parameters \<open>csv_text\<close> and \<open>json_text\<close>.
\<close>

definition export_reports ::
  "(file_info list \<Rightarrow> string) \<Rightarrow> (file_info list \<Rightarrow> string) \<Rightarrow>
   path \<Rightarrow> file_info list \<Rightarrow> os_state \<Rightarrow> (os_error + string) \<times> os_state" where
  "export_reports csv_text json_text folder_path files_info st =
     (if files_info = [] then (Inr ''No files to export.'', st)
      else
        let csv_path = joinpath folder_path ''organized_index.csv'';
            json_path = joinpath folder_path ''organized_index.json''
        in
        case write_text csv_path (csv_text files_info) st of
          (Some e, st1) \<Rightarrow> (Inl e, st1)
        | (None, st1) \<Rightarrow>
            (case write_text json_path (json_text files_info) st1 of
               (Some e, st2) \<Rightarrow> (Inl e, st2)
             | (None, st2) \<Rightarrow>
                 (Inr (''Reports created:'' @ newline @ ''  CSV : '' @ str_of_path csv_path
                       @ newline @ ''  JSON: '' @ str_of_path json_path),
                  st2)))"

section \<open>The specification's side\<close>

text \<open>
  The heuristic in the specification's words: four keyword groups in the priority order
  Images, Videos, Documents, Audio; the hint is the first group one of whose keywords
  occurs in the lower-cased file name, and empty when there is none.
\<close>

definition AI_GROUPS :: "(string \<times> string list) list" where
  "AI_GROUPS =
     [(''Images'', [''img'', ''image'', ''photo'', ''camera'', ''screenshot'', ''snap'']),
      (''Videos'', [''video'', ''movie'', ''clip'', ''record'']),
      (''Documents'', [''doc'', ''report'', ''assignment'', ''notes'', ''letter'']),
      (''Audio'', [''music'', ''song'', ''audio'', ''track''])]"

definition spec_ai_hint :: "string \<Rightarrow> string" where
  "spec_ai_hint file_name =
     (case find (\<lambda>(grp, keywords). list_ex (\<lambda>k. py_in k (lower file_name)) keywords) AI_GROUPS of
        None \<Rightarrow> []
      | Some (grp, keywords) \<Rightarrow> grp)"


text \<open>A record whose category and hint are what the classifier gives for its name.\<close>

definition classified :: "file_info \<Rightarrow> bool" where
  "classified r =
     (category r = get_category (lower (py_suffix (name r))) \<and>
      ai_hint r = guess_ai_category (name r) (category r))"



section \<open>Example inputs\<close>

text \<open>A directory \<open>/data\<close> with the two files of the specification's example, and the
  index that a scan of it gives.\<close>

definition ex_state :: os_state where
  "ex_state =
     \<lparr>cwd = [''home''], now = 100,
      nodes = [([''home''], Dir), ([''data''], Dir),
               ([''data'', ''photo123.xyz''], File ''pixels'' 10),
               ([''data'', ''report.doc''], File ''words'' 20)]\<rparr>"

definition ex_index :: "file_info list" where
  "ex_index =
     [\<lparr>name = ''photo123.xyz'', relative_path = ''photo123.xyz'', full_path = ''/data/photo123.xyz'',
       extension = ''.xyz'', category = ''Others'', ai_hint = ''Images'', size_bytes = 6,
       modified_time = 10\<rparr>,
      \<lparr>name = ''report.doc'', relative_path = ''report.doc'', full_path = ''/data/report.doc'',
       extension = ''.doc'', category = ''Documents'', ai_hint = [], size_bytes = 5,
       modified_time = 20\<rparr>]"


text \<open>An index of \<open>/data\<close> whose first record names a file that is no longer there.\<close>

definition stale_index :: "file_info list" where
  "stale_index =
     [\<lparr>name = ''gone.txt'', relative_path = ''gone.txt'', full_path = ''/data/gone.txt'',
       extension = ''.txt'', category = ''Documents'', ai_hint = [], size_bytes = 3,
       modified_time = 5\<rparr>,
      \<lparr>name = ''report.doc'', relative_path = ''report.doc'', full_path = ''/data/report.doc'',
       extension = ''.doc'', category = ''Documents'', ai_hint = [], size_bytes = 5,
       modified_time = 20\<rparr>]"

text \<open>A directory \<open>/data\<close> with nothing in it.\<close>

definition empty_state :: os_state where
  "empty_state = \<lparr>cwd = [''home''], now = 100, nodes = [([''home''], Dir), ([''data''], Dir)]\<rparr>"







text \<open>
  A process in \<open>/home/u\<close> with one picture in the directory \<open>docs\<close>: the index of a scan
  that finds the picture at \<open>rel\<close> below \<open>docs\<close>, the file system with the picture in
  \<open>docs/Images\<close> under a given name, and the report for one picture.
\<close>

definition rel_state :: os_state where
  "rel_state =
     \<lparr>cwd = [''home'', ''u''], now = 100,
      nodes = [([''home''], Dir), ([''home'', ''u''], Dir), ([''home'', ''u'', ''docs''], Dir),
               ([''home'', ''u'', ''docs'', ''a.jpg''], File ''x'' 1)]\<rparr>"

definition rel_index :: "string \<Rightarrow> file_info list" where
  "rel_index rel =
     [\<lparr>name = ''a.jpg'', relative_path = rel, full_path = ''/home/u/docs/'' @ rel,
       extension = ''.jpg'', category = ''Images'', ai_hint = [], size_bytes = 1,
       modified_time = 1\<rparr>]"

definition rel_organized :: "string \<Rightarrow> os_state" where
  "rel_organized file_name =
     \<lparr>cwd = [''home'', ''u''], now = 100,
      nodes = [([''home''], Dir), ([''home'', ''u''], Dir), ([''home'', ''u'', ''docs''], Dir),
               ([''home'', ''u'', ''docs'', ''Images''], Dir),
               ([''home'', ''u'', ''docs'', ''Images'', file_name], File ''x'' 1)]\<rparr>"

definition rel_report :: string where
  "rel_report = join_lines [''Summary by category:'', ''  Images: 1 file(s)'', [],
     ''Files have been organized into category folders.'']"

section \<open>The search engine\<close>

lemma search_loop_filter:
  "search_loop k q xs acc = acc @ filter (search_match k q) xs"
  by (induction xs arbitrary: acc) simp_all

lemma search_files_filter:
  "search_files xs k q = filter (search_match k (lower q)) xs"
  by (simp add: search_files_def search_loop_filter)

text \<open>
  Claim C10. A search whose kind is none of "name", "extension" and "category" returns
  the empty list for every index and every query: no branch of the loop body appends.
\<close>

theorem search_unknown_kind_empty:
  "k \<noteq> ''name'' \<Longrightarrow> k \<noteq> ''extension'' \<Longrightarrow> k \<noteq> ''category'' \<Longrightarrow> search_files idx k q = []"
  by (simp add: search_files_filter search_match_def)

theorem search_unknown_kind_empty_witness:
  "''size'' \<noteq> ''name'' \<and> ''size'' \<noteq> ''extension'' \<and> ''size'' \<noteq> ''category'' \<and>
   search_files
     [\<lparr>name = ''a.jpg'', relative_path = ''a.jpg'', full_path = ''/data/a.jpg'', extension = ''.jpg'',
       category = ''Images'', ai_hint = [], size_bytes = 1, modified_time = 0\<rparr>]
     ''size'' ''1'' = []"
  using search_unknown_kind_empty [of "''size''"] by simp

section \<open>The classifier\<close>

lemma get_category_loop_find:
  "get_category_loop x t =
     (case find (\<lambda>(cat, exts). x \<in> set exts) t of None \<Rightarrow> ''Others'' | Some (cat, exts) \<Rightarrow> cat)"
  by (induction x t rule: get_category_loop.induct) simp_all

lemma get_category_loop_declared:
  "distinct (concat (map snd t)) \<Longrightarrow> (cat, exts) \<in> set t \<Longrightarrow> x \<in> set exts \<Longrightarrow>
   get_category_loop x t = cat"
proof (induction x t rule: get_category_loop.induct)
  case (1 ext)
  then show ?case by simp
next
  case (2 ext c es rest)
  show ?case
  proof (cases "ext \<in> set es")
    case True
    have "(cat, exts) = (c, es)"
    proof (rule ccontr)
      assume "(cat, exts) \<noteq> (c, es)"
      with "2.prems" have "(cat, exts) \<in> set rest" by auto
      with "2.prems" have "ext \<in> set (concat (map snd rest))" by force
      with True "2.prems"(1) show False by auto
    qed
    with True show ?thesis by simp
  next
    case False
    with "2.prems" have "(cat, exts) \<in> set rest" by auto
    moreover from "2.prems" have "distinct (concat (map snd rest))" by simp
    ultimately show ?thesis using False "2.IH" "2.prems"(3) by simp
  qed
qed

lemma get_category_loop_none:
  "\<forall>(cat, exts) \<in> set t. x \<notin> set exts \<Longrightarrow> get_category_loop x t = ''Others''"
  by (induction x t rule: get_category_loop.induct) auto

lemma CATEGORY_MAP_distinct: "distinct (concat (map snd CATEGORY_MAP))"
  by (simp add: CATEGORY_MAP_def)

text \<open>
  Claim C7. For every extension string whose lower-cased form stands in the category
  table, \<open>get_category\<close> returns the category under which it is declared, which is the
  first matching category in declaration order; for every extension whose lower-cased
  form stands in no category's list, it returns "Others". The function is total, and
  two extensions that differ only in case get the same category.
\<close>

theorem get_category_table:
  "((cat, exts) \<in> set CATEGORY_MAP \<and> lower e \<in> set exts \<longrightarrow> get_category e = cat) \<and>
   ((\<forall>(c, es) \<in> set CATEGORY_MAP. lower e \<notin> set es) \<longrightarrow> get_category e = ''Others'') \<and>
   get_category e =
     (case find (\<lambda>(c, es). lower e \<in> set es) CATEGORY_MAP of
        None \<Rightarrow> ''Others'' | Some (c, es) \<Rightarrow> c) \<and>
   (lower e = lower e' \<longrightarrow> get_category e = get_category e')"
  unfolding get_category_def
  using get_category_loop_declared [OF CATEGORY_MAP_distinct, of cat exts "lower e"]
    get_category_loop_none [of CATEGORY_MAP "lower e"]
    get_category_loop_find [of "lower e" CATEGORY_MAP]
  by auto

theorem get_category_table_witness:
  "(''Images'', [''.jpg'', ''.jpeg'', ''.png'', ''.gif'', ''.bmp'', ''.tiff'', ''.webp'', ''.svg'', ''.heic''])
     \<in> set CATEGORY_MAP \<and>
   lower ''.JPG'' \<in> set [''.jpg'', ''.jpeg'', ''.png'', ''.gif'', ''.bmp'', ''.tiff'', ''.webp'', ''.svg'', ''.heic''] \<and>
   get_category ''.JPG'' = ''Images'' \<and>
   list_all (\<lambda>(c, es). lower ''.xyz'' \<notin> set es) CATEGORY_MAP \<and>
   get_category ''.xyz'' = ''Others'' \<and>
   lower ''.Py'' = lower ''.pY'' \<and> get_category ''.Py'' = get_category ''.pY''"
proof -
  let ?im = "[''.jpg'', ''.jpeg'', ''.png'', ''.gif'', ''.bmp'', ''.tiff'', ''.webp'', ''.svg'', ''.heic'']"
  have a: "(''Images'', ?im) \<in> set CATEGORY_MAP" by (simp add: CATEGORY_MAP_def)
  have b: "lower ''.JPG'' \<in> set ?im" by (simp add: lower_def lower_char_def)
  have c: "list_all (\<lambda>(c, es). lower ''.xyz'' \<notin> set es) CATEGORY_MAP"
    by (simp add: CATEGORY_MAP_def lower_def lower_char_def)
  then have c': "\<forall>(c, es) \<in> set CATEGORY_MAP. lower ''.xyz'' \<notin> set es"
    by (simp add: list_all_iff)
  have d: "lower ''.Py'' = lower ''.pY''" by (simp add: lower_def lower_char_def)
  from a b have "get_category ''.JPG'' = ''Images''"
    using get_category_table [of "''Images''" ?im "''.JPG''"] by blast
  moreover from c' have "get_category ''.xyz'' = ''Others''"
    using get_category_table [of _ _ "''.xyz''"] by blast
  moreover from d have "get_category ''.Py'' = get_category ''.pY''"
    using get_category_table [of _ _ "''.Py''" "''.pY''"] by blast
  ultimately show ?thesis using a b c d by blast
qed

text \<open>
  Claim C8. For every file name whose base category is "Others", \<open>guess_ai_category\<close>
  tests the lower-cased name for the keywords of the four groups in the order Images,
  Videos, Documents, Audio and returns the first group one of whose keywords occurs in
  it, so an earlier group wins over a later one; it returns the empty string when no
  keyword of any group occurs.
\<close>

theorem ai_hint_priority:
  "guess_ai_category file_name ''Others'' = spec_ai_hint file_name"
  by (simp add: guess_ai_category_def spec_ai_hint_def AI_GROUPS_def Let_def)

theorem ai_hint_priority_witness:
  "guess_ai_category ''Movie_Snap.bin'' ''Others'' = ''Images'' \<and>
   guess_ai_category ''song notes.bin'' ''Others'' = ''Documents'' \<and>
   guess_ai_category ''x.bin'' ''Others'' = []"
proof -
  have "spec_ai_hint ''Movie_Snap.bin'' = ''Images''" by code_simp
  moreover have "spec_ai_hint ''song notes.bin'' = ''Documents''" by code_simp
  moreover have "spec_ai_hint ''x.bin'' = []" by code_simp
  ultimately show ?thesis by (simp only: ai_hint_priority)
qed

section \<open>The scanner\<close>

lemma get_file_info_classified:
  "get_file_info os entry root_folder = Inr (Some r) \<Longrightarrow> classified r"
  by (auto simp: get_file_info_def classified_def Let_def lower_def
      split: if_splits sum.splits)

lemma scan_entries_classified:
  "scan_entries os root_folder es acc = Inr idx \<Longrightarrow> \<forall>r\<in>set acc. classified r \<Longrightarrow>
   \<forall>r\<in>set idx. classified r"
proof (induction es arbitrary: acc)
  case Nil
  then show ?case by simp
next
  case (Cons e es)
  show ?case
  proof (cases "v_is_file os e")
    case (Inl x)
    with Cons.prems show ?thesis by simp
  next
    case (Inr b)
    note b = this
    show ?thesis
    proof (cases b)
      case False
      with b Cons show ?thesis by simp
    next
      case True
      note t = this
      show ?thesis
      proof (cases "get_file_info os e root_folder")
        case (Inl x)
        with b t Cons.prems show ?thesis by simp
      next
        case (Inr res)
        show ?thesis
        proof (cases res)
          case None
          with Inr b t Cons show ?thesis by simp
        next
          case (Some info)
          with Inr have "classified info" by (simp add: get_file_info_classified)
          with Cons.prems(2) have "\<forall>r\<in>set (acc @ [info]). classified r" by simp
          moreover from Cons.prems(1) Some Inr b t
          have "scan_entries os root_folder es (acc @ [info]) = Inr idx" by simp
          ultimately show ?thesis by (rule Cons.IH [rotated])
        qed
      qed
    qed
  qed
qed

lemma scan_folder_classified:
  "scan_folder os root_folder recursive = Inr idx \<Longrightarrow> r \<in> set idx \<Longrightarrow> classified r"
proof -
  assume s: "scan_folder os root_folder recursive = Inr idx" and r: "r \<in> set idx"
  from s obtain es where "scan_entries os root_folder es [] = Inr idx"
    by (auto simp: scan_folder_def split: if_splits sum.splits)
  then have "\<forall>r\<in>set idx. classified r" by (rule scan_entries_classified) simp
  with r show ?thesis by blast
qed

text \<open>
  Claim C9. Every record of every index that a scan returns has an empty \<open>ai_hint\<close>
  whenever its category is not "Others": a hint stands only on "Others" records.
\<close>

theorem ai_hint_only_on_others:
  "scan_folder os root_folder recursive = Inr idx \<Longrightarrow> r \<in> set idx \<Longrightarrow>
   category r \<noteq> ''Others'' \<Longrightarrow> ai_hint r = []"
proof -
  assume "scan_folder os root_folder recursive = Inr idx" and "r \<in> set idx"
  then have "classified r" by (rule scan_folder_classified)
  moreover assume "category r \<noteq> ''Others''"
  ultimately show ?thesis by (simp add: classified_def guess_ai_category_def)
qed

lemma ex_scan: "scan_folder (view_of ex_state) (Path ''/data'') True = Inr ex_index"
  by code_simp

theorem ai_hint_only_on_others_witness:
  "scan_folder (view_of ex_state) (Path ''/data'') True = Inr ex_index \<and>
   ex_index ! 1 \<in> set ex_index \<and>
   category (ex_index ! 1) \<noteq> ''Others'' \<and>
   ai_hint (ex_index ! 1) = []"
proof -
  have m: "ex_index ! 1 \<in> set ex_index" by (simp add: ex_index_def)
  have c: "category (ex_index ! 1) \<noteq> ''Others''" by (simp add: ex_index_def)
  from ai_hint_only_on_others [OF ex_scan m c] ex_scan m c show ?thesis by blast
qed

section \<open>Searching a scanned index\<close>

lemma get_category_loop_range:
  "get_category_loop x t \<in> insert ''Others'' (fst ` set t)"
  by (induction x t rule: get_category_loop.induct) auto

lemma get_category_images: "lower (get_category x) = ''images'' \<longleftrightarrow> get_category x = ''Images''"
proof -
  have "get_category x \<in> insert ''Others'' (fst ` set CATEGORY_MAP)"
    unfolding get_category_def by (rule get_category_loop_range)
  then have "get_category x \<in> {''Others'', ''Images'', ''Videos'', ''Audio'', ''Documents'', ''PDFs'',
      ''Spreadsheets'', ''Presentations'', ''Archives'', ''Executables'', ''Code''}"
    by (auto simp: CATEGORY_MAP_def)
  then show ?thesis
    by (auto simp: lower_def lower_char_def)
qed

lemma guess_ai_category_range:
  "guess_ai_category nm c \<in> {[], ''Images'', ''Videos'', ''Documents'', ''Audio''}"
  by (simp add: guess_ai_category_def Let_def)

lemma guess_ai_category_images:
  "lower (guess_ai_category nm c) = ''images'' \<longleftrightarrow> guess_ai_category nm c = ''Images''"
  using guess_ai_category_range [of nm c] by (auto simp: lower_def lower_char_def)

lemma lower_Images: "lower ''Images'' = ''images''"
  by (simp add: lower_def lower_char_def)

lemma classified_images:
  "classified r \<Longrightarrow>
   search_match ''category'' ''images'' r \<longleftrightarrow>
     category r = ''Images'' \<or> (category r = ''Others'' \<and> ai_hint r = ''Images'')"
proof -
  assume c: "classified r"
  then have a: "lower (category r) = ''images'' \<longleftrightarrow> category r = ''Images''"
    using get_category_images by (simp add: classified_def)
  from c have b: "lower (ai_hint r) = ''images'' \<longleftrightarrow> ai_hint r = ''Images''"
    using guess_ai_category_images [of "name r" "category r"] by (simp add: classified_def)
  from c have d: "ai_hint r = ''Images'' \<Longrightarrow> category r = ''Others''"
    by (auto simp: classified_def guess_ai_category_def split: if_splits)
  have "search_match ''category'' ''images'' r \<longleftrightarrow>
      ''images'' = lower (category r) \<or> ''images'' = lower (ai_hint r)"
    by (simp add: search_match_def)
  with a b d show ?thesis by (metis)
qed

lemma search_match_category:
  "search_match ''category'' ql = (\<lambda>r. ql = lower (category r) \<or> ql = lower (ai_hint r))"
  by (rule ext) (simp add: search_match_def)

text \<open>
  Claim C6. For every index and every query, a search of kind "category" returns exactly
  the records whose category or whose hint equals the query when case is ignored, in the
  order of the index. On an index that a scan returned, the search for "Images" returns
  exactly the records of category "Images" and the "Others" records whose hint is
  "Images".
\<close>

theorem search_category:
  "search_files idx ''category'' q =
     filter (\<lambda>r. lower q = lower (category r) \<or> lower q = lower (ai_hint r)) idx \<and>
   (scan_folder os root_folder recursive = Inr idx \<longrightarrow>
    search_files idx ''category'' ''Images'' =
      filter (\<lambda>r. category r = ''Images'' \<or> (category r = ''Others'' \<and> ai_hint r = ''Images'')) idx)"
proof
  show "search_files idx ''category'' q =
     filter (\<lambda>r. lower q = lower (category r) \<or> lower q = lower (ai_hint r)) idx"
    by (simp add: search_files_filter search_match_category)
next
  show "scan_folder os root_folder recursive = Inr idx \<longrightarrow>
    search_files idx ''category'' ''Images'' =
      filter (\<lambda>r. category r = ''Images'' \<or> (category r = ''Others'' \<and> ai_hint r = ''Images'')) idx"
  proof
    assume "scan_folder os root_folder recursive = Inr idx"
    then have "\<forall>r\<in>set idx. classified r" using scan_folder_classified by blast
    then have "filter (search_match ''category'' ''images'') idx =
        filter (\<lambda>r. category r = ''Images'' \<or> (category r = ''Others'' \<and> ai_hint r = ''Images'')) idx"
      by (intro filter_cong) (simp_all add: classified_images)
    then show "search_files idx ''category'' ''Images'' =
        filter (\<lambda>r. category r = ''Images'' \<or> (category r = ''Others'' \<and> ai_hint r = ''Images'')) idx"
      by (simp add: search_files_filter lower_Images)
  qed
qed

theorem search_category_witness:
  "scan_folder (view_of ex_state) (Path ''/data'') True = Inr ex_index \<and>
   search_files ex_index ''category'' ''Images'' = [ex_index ! 0] \<and>
   search_files ex_index ''category'' ''DOCUMENTS'' = [ex_index ! 1]"
proof -
  have a: "filter (\<lambda>r. category r = ''Images'' \<or> (category r = ''Others'' \<and> ai_hint r = ''Images'')) ex_index
      = [ex_index ! 0]"
    by (simp add: ex_index_def)
  have b: "filter (\<lambda>r. lower ''DOCUMENTS'' = lower (category r) \<or> lower ''DOCUMENTS'' = lower (ai_hint r)) ex_index
      = [ex_index ! 1]"
    by (simp add: ex_index_def lower_def lower_char_def)
  from search_category [of ex_index "''DOCUMENTS''" "view_of ex_state" "Path ''/data''" True] ex_scan a b
  show ?thesis by simp
qed

section \<open>Failures during a scan\<close>





section \<open>Empty directories and empty indexes\<close>

lemma os_walk_empty:
  "is_dir st root_folder \<Longrightarrow> listdir st (key st root_folder) = [] \<Longrightarrow>
   os_walk st root_folder [] = [(root_folder, [])]"
  by (subst os_walk.simps) (simp add: is_dir_def lookup_node_def)

text \<open>
  Claim C3, as amended. Scanning an empty directory returns the empty index. On an empty
  index \<open>organize_files\<close> and \<open>export_reports\<close> leave the file system as it is and
  return the messages "No files found to organize." and "No files to export." as their
  ordinary results; they raise nothing.
\<close>

theorem empty_scan_and_empty_index:
  "(is_dir st root_folder \<and> listdir st (key st root_folder) = [] \<longrightarrow>
      scan_folder (view_of st) root_folder recursive = Inr []) \<and>
   organize_files root_folder [] st = (Inr ''No files found to organize.'', st) \<and>
   export_reports csv_text json_text root_folder [] st = (Inr ''No files to export.'', st)"
proof (intro conjI impI)
  assume a: "is_dir st root_folder \<and> listdir st (key st root_folder) = []"
  then have w: "os_walk st root_folder [] = [(root_folder, [])]" by (simp add: os_walk_empty)
  from a have i: "iterdir st root_folder = Inr []" by (simp add: iterdir_def is_dir_def)
  show "scan_folder (view_of st) root_folder recursive = Inr []"
    by (cases recursive) (simp_all add: scan_folder_def view_of_def w i walk_entries_def)
next
  show "organize_files root_folder [] st = (Inr ''No files found to organize.'', st)"
    by (simp add: organize_files_def)
next
  show "export_reports csv_text json_text root_folder [] st = (Inr ''No files to export.'', st)"
    by (simp add: export_reports_def)
qed

text \<open>
  The claim as stated fails: on the empty index both calls return normally, with a
  message, where the claim has them fail with an error.
\<close>

theorem empty_index_counterexample:
  "organize_files (Path ''/data'') [] empty_state = (Inr ''No files found to organize.'', empty_state) \<and>
   export_reports (\<lambda>idx. []) (\<lambda>idx. []) (Path ''/data'') [] empty_state
     = (Inr ''No files to export.'', empty_state)"
  by (simp add: organize_files_def export_reports_def)

theorem empty_scan_and_empty_index_witness:
  "is_dir empty_state (Path ''/data'') \<and> listdir empty_state (key empty_state (Path ''/data'')) = [] \<and>
   scan_folder (view_of empty_state) (Path ''/data'') True = Inr [] \<and>
   scan_folder (view_of empty_state) (Path ''/data'') False = Inr [] \<and>
   organize_files (Path ''/data'') [] empty_state = (Inr ''No files found to organize.'', empty_state)"
proof -
  have a: "is_dir empty_state (Path ''/data'')" by code_simp
  have b: "listdir empty_state (key empty_state (Path ''/data'')) = []" by code_simp
  from a b empty_scan_and_empty_index [of empty_state "Path ''/data''" True]
    empty_scan_and_empty_index [of empty_state "Path ''/data''" False]
  show ?thesis by blast
qed

section \<open>Failures during organize\<close>

lemma organize_loop_append:
  "organize_loop root_folder pre st = (None, st1) \<Longrightarrow>
   organize_loop root_folder (pre @ rest) st = organize_loop root_folder rest st1"
  by (induction pre arbitrary: st) (auto split: prod.splits option.splits)

text \<open>
  Claim C1, as amended. A failure of one record's round in \<open>organize_files\<close> is not
  caught: when the records before it went through and its own round raises, the call
  ends with that error, the file system is left as that round left it, and no later
  record is looked at.
\<close>

theorem organize_stops_at_first_failure:
  "organize_loop root_folder pre st = (None, st1) \<Longrightarrow>
   organize_one root_folder r st1 = (Some e, st2) \<Longrightarrow>
   organize_files root_folder (pre @ r # post) st = (Inl e, st2)"
  by (simp add: organize_files_def organize_loop_append)

text \<open>
  The claim as stated fails: the first record's file is missing, the call ends with
  \<open>FileNotFoundError\<close> and the second record's file is still where it was.
\<close>

theorem organize_failure_counterexample:
  "organize_files (Path ''/data'') stale_index ex_state =
     (Inl FileNotFoundError,
      \<lparr>cwd = [''home''], now = 100,
       nodes = [([''home''], Dir), ([''data''], Dir),
                ([''data'', ''photo123.xyz''], File ''pixels'' 10),
                ([''data'', ''report.doc''], File ''words'' 20),
                ([''data'', ''Documents''], Dir)]\<rparr>)"
  by code_simp

theorem organize_stops_at_first_failure_witness:
  "organize_loop (Path ''/data'') [] ex_state = (None, ex_state) \<and>
   organize_one (Path ''/data'') (stale_index ! 0) ex_state =
     (Some FileNotFoundError, ex_state\<lparr>nodes := nodes ex_state @ [([''data'', ''Documents''], Dir)]\<rparr>) \<and>
   organize_files (Path ''/data'') ([] @ stale_index ! 0 # [stale_index ! 1]) ex_state =
     (Inl FileNotFoundError, ex_state\<lparr>nodes := nodes ex_state @ [([''data'', ''Documents''], Dir)]\<rparr>)"
proof -
  have a: "organize_loop (Path ''/data'') [] ex_state = (None, ex_state)" by simp
  have b: "organize_one (Path ''/data'') (stale_index ! 0) ex_state =
     (Some FileNotFoundError, ex_state\<lparr>nodes := nodes ex_state @ [([''data'', ''Documents''], Dir)]\<rparr>)"
    by code_simp
  from organize_stops_at_first_failure [OF a b, of "[stale_index ! 1]"] a b show ?thesis by blast
qed

section \<open>Collisions during organize\<close>


















section \<open>Organizing twice\<close>

text \<open>
  Claim C4, on the input where the code breaks it. With the relative root \<open>docs\<close>, one
  organize run puts the picture into \<open>docs/Images\<close>; after a new scan, a second run
  moves it again, to \<open>a (1).jpg\<close>: \<open>src.parent\<close> is the resolved, absolute directory and
  \<open>category_folder\<close> is relative, so the test that should skip the file compares two
  paths that are never equal. With the same directory given as an absolute root, the
  second run moves nothing.
\<close>

theorem organize_twice_relative_root:
  "scan_folder (view_of rel_state) (Path ''docs'') True = Inr (rel_index ''a.jpg'') \<and>
   organize_files (Path ''docs'') (rel_index ''a.jpg'') rel_state
     = (Inr rel_report, rel_organized ''a.jpg'') \<and>
   scan_folder (view_of (rel_organized ''a.jpg'')) (Path ''docs'') True = Inr (rel_index ''Images/a.jpg'') \<and>
   organize_files (Path ''docs'') (rel_index ''Images/a.jpg'') (rel_organized ''a.jpg'')
     = (Inr rel_report, rel_organized ''a (1).jpg'') \<and>
   scan_folder (view_of (rel_organized ''a.jpg'')) (Path ''/home/u/docs'') True = Inr (rel_index ''Images/a.jpg'') \<and>
   organize_files (Path ''/home/u/docs'') (rel_index ''Images/a.jpg'') (rel_organized ''a.jpg'')
     = (Inr rel_report, rel_organized ''a.jpg'')"
  by code_simp

end
